theory Spec2Isabelle
  imports Complex_Main "HOL-Library.Sublist"
begin

section \<open>The Scriptify client: App.jsx\<close>

text \<open>
  The repository's sources hold two revisions of the React component \<open>App\<close>: the
  summarizer (the text embedded in \<open>push-both.sh\<close>) and the earlier text converter
  (\<open>frontend/text converter/src/App.jsx\<close>). Both are embedded here. React state is a
  record; a handler is a function from state to state; an \<open>await\<close> splits
  \<open>handleConvert\<close> into the parts that run before and after it; an exception is a
  value (the message of the thrown \<open>Error\<close>); timers and the pending request are
  fields of an explicit environment, and the event loop is a step function over events.

  JavaScript numbers are modelled as reals: the rounding of double arithmetic is not
  modelled (the random draws of the concrete runs below are multiples of 1/4, on which
  double arithmetic is exact). Strings are lists of characters; \<open>undefined\<close> is
  \<open>None\<close>.
\<close>

subsection \<open>String.prototype.includes\<close>

fun js_includes :: "string \<Rightarrow> string \<Rightarrow> bool" where
  "js_includes [] t = (t = [])"
| "js_includes (c # s) t = (prefix t (c # s) \<or> js_includes s t)"

text \<open>The test of \<open>handleConvert\<close> and of \<open>handleKeyDown\<close>:
  \<^verbatim>\<open>url.includes('youtube.com') || url.includes('youtu.be')\<close>.\<close>

definition valid_url :: "string \<Rightarrow> bool" where
  "valid_url u = (js_includes u ''youtube.com'' \<or> js_includes u ''youtu.be'')"

subsection \<open>Data\<close>

text \<open>Modelled from the spec: the type of the backend's JSON payload (section 6 of the
  specification; the backend's response model is not among the sources). Every field may
  be absent, as in any decoded JSON object.\<close>

record video_info =
  title :: string
  uploader :: string
  duration :: nat
  view_count :: nat
  upload_date :: string

record payload =
  p_error :: "string option"
  p_text :: "string option"
  p_video_info :: "video_info option"
  p_highlights :: "(string \<times> string) list option"
  p_timestamps :: "(string \<times> string) list option"

text \<open>The state of the earlier component, and the summarizer's, which extends it.\<close>

record text_converter =
  url :: string
  transcript :: "string option"
  isLoading :: bool
  isSidebarOpen :: bool
  error :: string
  copySuccess :: bool

record app = text_converter +
  progress :: real
  progressMessage :: string
  summaryType :: string
  videoInfo :: "video_info option"

definition initial_app :: app where
  "initial_app = \<lparr>url = [], transcript = Some [], isLoading = False, isSidebarOpen = False,
     error = [], copySuccess = False, progress = 0, progressMessage = [],
     summaryType = ''comprehensive'', videoInfo = None\<rparr>"

text \<open>The values of the \<open>option\<close> elements of the summary-type \<open>select\<close>.\<close>

definition summary_options :: "string list" where
  "summary_options = [''comprehensive'', ''brief'', ''bullets'', ''academic'']"

datatype json = JString string | JBool bool

record request =
  endpoint :: string
  http_method :: string
  headers :: "(string \<times> string) list"
  body :: "(string \<times> json) list"

text \<open>What \<open>fetch\<close> settles with: a rejection (a network failure, with the error's
  message) or a response; and what the awaited read of the body (\<open>response.text()\<close> or
  \<open>response.json()\<close>) gives: an exception with its message (also the \<open>TypeError\<close> of
  reading a property of a decoded \<open>null\<close>), or the decoded object.\<close>

record http_response =
  ok :: bool
  status :: nat

datatype fetch_result = Rejected string | Responded http_response

datatype body_result = BodyFailed string | BodyData payload

subsection \<open>Small JavaScript operations\<close>

text \<open>Truthiness of a string or \<open>undefined\<close>.\<close>

fun truthy :: "string option \<Rightarrow> bool" where
  "truthy None = False"
| "truthy (Some s) = (s \<noteq> [])"

text \<open>\<open>Math.round\<close> rounds half up.\<close>

definition js_round :: "real \<Rightarrow> int" where
  "js_round x = \<lfloor>x + 1 / 2\<rfloor>"

text \<open>The decimal text of a number in a template literal.\<close>

definition digit :: "nat \<Rightarrow> char" where
  "digit n = ''0123456789'' ! n"

fun show_nat :: "nat \<Rightarrow> string" where
  "show_nat n = (if n < 10 then [digit n] else show_nat (n div 10) @ [digit (n mod 10)])"

declare show_nat.simps [simp del]

subsection \<open>handleConvert of the summarizer\<close>

definition summary_request :: "string \<Rightarrow> string \<Rightarrow> request" where
  "summary_request u st = \<lparr>endpoint = ''/transcribe-summary/'', http_method = ''POST'',
     headers = [(''Content-Type'', ''application/json'')],
     body = [(''url'', JString u), (''summary_type'', JString st),
             (''include_timestamps'', JBool True), (''include_chapters'', JBool False),
             (''include_highlights'', JBool True)]\<rparr>"

text \<open>Up to the \<open>await fetch\<close>. The function closes over \<open>url\<close> and \<open>summaryType\<close> of
  the render that created it: they are the arguments \<open>u\<close> and \<open>st\<close>. The result is the
  new state and the request issued, if any (with it, the interval timer is started).\<close>

definition handleConvert_begin :: "string \<Rightarrow> string \<Rightarrow> app \<Rightarrow> app \<times> request option" where
  "handleConvert_begin u st s =
     (if \<not> js_includes u ''youtube.com'' \<and> \<not> js_includes u ''youtu.be''
      then (s\<lparr>error := ''Please enter a valid YouTube URL''\<rparr>, None)
      else (s\<lparr>isLoading := True, isSidebarOpen := True, error := [], copySuccess := False,
               progress := 0, progressMessage := ''Initializing...''\<rparr>,
            Some (summary_request u st)))"

text \<open>The callback of \<open>progressInterval\<close>; \<open>r\<close> is what \<open>Math.random()\<close> returns.\<close>

definition stage_message :: "real \<Rightarrow> string" where
  "stage_message newProgress =
     (if newProgress < 15 then ''Initializing audio processing...''
      else if newProgress < 30 then ''Extracting high-quality audio...''
      else if newProgress < 45 then ''Analyzing speech patterns...''
      else if newProgress < 60 then ''Transcribing audio content...''
      else if newProgress < 75 then ''Detecting chapters and highlights...''
      else ''Generating intelligent summary...'')"

definition tick :: "real \<Rightarrow> app \<Rightarrow> app" where
  "tick r s =
     (if progress s < 90
      then (let newProgress = progress s + r * 15
            in s\<lparr>progressMessage := stage_message newProgress,
                 progress := min newProgress 90\<rparr>)
      else s)"

text \<open>The \<open>catch\<close> block and the \<open>finally\<close> block.\<close>

definition handleConvert_catch :: "string \<Rightarrow> app \<Rightarrow> app" where
  "handleConvert_catch message s =
     s\<lparr>error := (if message \<noteq> [] then message
                  else ''Failed to convert video. Please try again.''),
       progress := 0, progressMessage := []\<rparr>"

definition handleConvert_finally :: "app \<Rightarrow> app" where
  "handleConvert_finally s = s\<lparr>isLoading := False\<rparr>"

text \<open>After \<open>fetch\<close> has resolved, up to the awaited read of the body.\<close>

definition handleConvert_response :: "app \<Rightarrow> app" where
  "handleConvert_response s = s\<lparr>progress := 95, progressMessage := ''Finalizing summary...''\<rparr>"

text \<open>The rest of the \<open>try\<close> block, once the body has been read: \<open>Inl\<close> is the message
  of the error thrown, \<open>Inr\<close> the state at the end of the block.\<close>

definition handleConvert_try :: "http_response \<Rightarrow> body_result \<Rightarrow> app \<Rightarrow> string + app" where
  "handleConvert_try response b s =
     (if \<not> ok response
      then (case b of
              BodyFailed message \<Rightarrow> Inl message
            | BodyData _ \<Rightarrow> Inl (''HTTP error! Status: '' @ show_nat (status response)))
      else (case b of
              BodyFailed message \<Rightarrow> Inl message
            | BodyData data \<Rightarrow>
                if truthy (p_error data) then Inl (the (p_error data))
                else Inr (s\<lparr>progress := 100, progressMessage := ''Complete!'',
                            transcript := p_text data, videoInfo := p_video_info data,
                            error := []\<rparr>)))"

definition handleConvert_done :: "http_response \<Rightarrow> body_result \<Rightarrow> app \<Rightarrow> app" where
  "handleConvert_done response b s =
     handleConvert_finally
       (case handleConvert_try response b s of
          Inl message \<Rightarrow> handleConvert_catch message s
        | Inr s' \<Rightarrow> s')"

text \<open>The callback of the \<open>setTimeout\<close> of the success path.\<close>

definition clear_progress :: "app \<Rightarrow> app" where
  "clear_progress s = s\<lparr>progress := 0, progressMessage := []\<rparr>"

subsection \<open>handleConvert of the text converter\<close>

definition transcribe_request :: "string \<Rightarrow> request" where
  "transcribe_request u = \<lparr>endpoint = ''http://localhost:8001/transcribe-json/'',
     http_method = ''POST'', headers = [(''Content-Type'', ''application/json'')],
     body = [(''url'', JString u)]\<rparr>"

definition handleConvert_begin_v1 ::
    "string \<Rightarrow> text_converter \<Rightarrow> text_converter \<times> request option" where
  "handleConvert_begin_v1 u s =
     (if \<not> js_includes u ''youtube.com'' \<and> \<not> js_includes u ''youtu.be''
      then (s\<lparr>error := ''Please enter a valid YouTube URL''\<rparr>, None)
      else (s\<lparr>isLoading := True, isSidebarOpen := True, error := [], copySuccess := False\<rparr>,
            Some (transcribe_request u)))"

subsection \<open>What the sidebar shows\<close>

record result_view =
  shown_info :: "video_info option"
  shown_copied :: bool
  shown_summary :: string

datatype sidebar =
  Processing int real string
| Result "result_view option" "string option"

definition render :: "app \<Rightarrow> sidebar" where
  "render s =
     (if isLoading s
      then Processing (js_round (progress s)) (progress s) (progressMessage s)
      else Result
        (case transcript s of
           None \<Rightarrow> None
         | Some t \<Rightarrow> if t \<noteq> [] then Some \<lparr>shown_info = videoInfo s,
                          shown_copied = copySuccess s, shown_summary = t\<rparr>
                      else None)
        (if error s \<noteq> [] then Some (error s) else None))"

subsection \<open>The component and its environment\<close>

text \<open>Where the running \<open>handleConvert\<close> is suspended, the live interval timers, the
  pending timeouts, and the requests issued so far.\<close>

datatype phase = Idle | AwaitingFetch | AwaitingBody http_response

record sys =
  ui :: app
  phase :: phase
  intervals :: nat
  resets :: nat
  pasted :: nat
  sent :: "request list"

definition initial_sys :: sys where
  "initial_sys = \<lparr>ui = initial_app, phase = Idle, intervals = 0, resets = 0, pasted = 0,
     sent = []\<rparr>"

datatype event =
  Type string
| Select string
| Click
| Tick real
| FetchSettled fetch_result
| BodyRead body_result
| ResetFired
| CloseSidebar
| CopyDone bool
| CopyTimer
| Paste "string option"
| PastedConvert

text \<open>
  One callback of the event loop. An event that cannot happen in a state leaves it
  unchanged: the button is disabled while \<open>isLoading\<close>; a \<open>select\<close> only takes the value
  of one of its options; \<open>Math.random()\<close> lies in \<open>[0, 1)\<close>; a timer fires only if it
  is live. \<open>handleKeyDown\<close> is memoized with no dependencies, so the \<open>handleConvert\<close>
  it calls is the one of the first render, which closes over the initial \<open>url\<close> and
  \<open>summaryType\<close>. A rejected \<open>fetch\<close> skips \<open>clearInterval\<close>.
\<close>

fun step :: "event \<Rightarrow> sys \<Rightarrow> sys" where
  "step (Type u) s = s\<lparr>ui := (ui s)\<lparr>url := u\<rparr>\<rparr>"
| "step (Select v) s =
     (if v \<in> set summary_options then s\<lparr>ui := (ui s)\<lparr>summaryType := v\<rparr>\<rparr> else s)"
| "step Click s =
     (if isLoading (ui s) then s
      else (case handleConvert_begin (url (ui s)) (summaryType (ui s)) (ui s) of
              (a, None) \<Rightarrow> s\<lparr>ui := a\<rparr>
            | (a, Some rq) \<Rightarrow> s\<lparr>ui := a, phase := AwaitingFetch,
                                 intervals := Suc (intervals s), sent := sent s @ [rq]\<rparr>))"
| "step (Tick r) s =
     (if 0 < intervals s \<and> 0 \<le> r \<and> r < 1 then s\<lparr>ui := tick r (ui s)\<rparr> else s)"
| "step (FetchSettled res) s =
     (if phase s \<noteq> AwaitingFetch then s
      else (case res of
              Rejected message \<Rightarrow>
                s\<lparr>ui := handleConvert_finally (handleConvert_catch message (ui s)),
                  phase := Idle\<rparr>
            | Responded response \<Rightarrow>
                s\<lparr>ui := handleConvert_response (ui s), phase := AwaitingBody response,
                  intervals := intervals s - 1\<rparr>))"
| "step (BodyRead b) s =
     (case phase s of
        AwaitingBody response \<Rightarrow>
          s\<lparr>ui := handleConvert_done response b (ui s), phase := Idle,
            resets := (case handleConvert_try response b (ui s) of
                         Inl _ \<Rightarrow> resets s | Inr _ \<Rightarrow> Suc (resets s))\<rparr>
      | _ \<Rightarrow> s)"
| "step ResetFired s =
     (if 0 < resets s then s\<lparr>ui := clear_progress (ui s), resets := resets s - 1\<rparr> else s)"
| "step CloseSidebar s = s\<lparr>ui := (ui s)\<lparr>isSidebarOpen := False\<rparr>\<rparr>"
| "step (CopyDone written) s =
     (if written then s\<lparr>ui := (ui s)\<lparr>copySuccess := True\<rparr>\<rparr>
      else s\<lparr>ui := (ui s)\<lparr>error := ''Failed to copy text to clipboard''\<rparr>\<rparr>)"
| "step CopyTimer s =
     (if copySuccess (ui s) then s\<lparr>ui := (ui s)\<lparr>copySuccess := False\<rparr>\<rparr> else s)"
| "step (Paste clip) s =
     (case clip of
        None \<Rightarrow> s\<lparr>ui := (ui s)\<lparr>error := ''Failed to read from clipboard''\<rparr>\<rparr>
      | Some t \<Rightarrow>
          if js_includes t ''youtube.com'' \<or> js_includes t ''youtu.be''
          then s\<lparr>ui := (ui s)\<lparr>url := t\<rparr>, pasted := Suc (pasted s)\<rparr>
          else s)"
| "step PastedConvert s =
     (if 0 < pasted s
      then (case handleConvert_begin (url initial_app) (summaryType initial_app) (ui s) of
              (a, None) \<Rightarrow> s\<lparr>ui := a, pasted := pasted s - 1\<rparr>
            | (a, Some rq) \<Rightarrow> s\<lparr>ui := a, phase := AwaitingFetch, pasted := pasted s - 1,
                                 intervals := Suc (intervals s), sent := sent s @ [rq]\<rparr>)
      else s)"

fun run :: "event list \<Rightarrow> sys \<Rightarrow> sys" where
  "run [] s = s"
| "run (e # es) s = run es (step e s)"

text \<open>The progress value after each event of a run.\<close>

fun progress_trace :: "event list \<Rightarrow> sys \<Rightarrow> real list" where
  "progress_trace [] s = []"
| "progress_trace (e # es) s = progress (ui (step e s)) # progress_trace es (step e s)"

subsection \<open>Notions used by the statements\<close>


text \<open>The \<open>url\<close> field of a request's body.\<close>

definition request_url :: "request \<Rightarrow> string option" where
  "request_url rq = (case map_of (body rq) ''url'' of Some (JString v) \<Rightarrow> Some v | _ \<Rightarrow> None)"

text \<open>A request built by the summarizer with one of the four option values.\<close>

definition request_wf :: "request \<Rightarrow> bool" where
  "request_wf rq =
     (case request_url rq of
        None \<Rightarrow> False
      | Some u \<Rightarrow> rq \<in> set (map (summary_request u) summary_options))"

section \<open>Basic facts\<close>

lemmas handler_defs = handleConvert_begin_def summary_request_def tick_def stage_message_def
  handleConvert_response_def handleConvert_done_def handleConvert_try_def
  handleConvert_catch_def handleConvert_finally_def clear_progress_def

lemma js_includes_sublist: "js_includes s t \<longleftrightarrow> sublist t s"
  by (induction s) (auto simp: sublist_Cons_right)

lemma valid_url_nonempty: "valid_url u \<Longrightarrow> u \<noteq> []"
  by (auto simp: valid_url_def)

lemma tick_le_90: "progress s \<le> 90 \<Longrightarrow> progress (tick r s) \<le> 90"
  by (simp add: tick_def Let_def)

lemma tick_mono: "0 \<le> r \<Longrightarrow> progress s \<le> progress (tick r s)"
  by (simp add: tick_def Let_def)

lemma tick_isLoading: "isLoading (tick r s) = isLoading s"
  by (simp add: tick_def Let_def)


lemma progress_trace_append:
  "progress_trace (xs @ ys) s = progress_trace xs s @ progress_trace ys (run xs s)"
  by (induction xs arbitrary: s) simp_all

lemma stale_convert_rejected:
  "handleConvert_begin (url initial_app) (summaryType initial_app) a
     = (a\<lparr>error := ''Please enter a valid YouTube URL''\<rparr>, None)"
  by (simp add: handleConvert_begin_def initial_app_def)



lemma click_valid:
  assumes "valid_url (url (ui s))" and "\<not> isLoading (ui s)"
  shows "step Click s = s\<lparr>ui := (ui s)\<lparr>isLoading := True, isSidebarOpen := True, error := [],
             copySuccess := False, progress := 0, progressMessage := ''Initializing...''\<rparr>,
           phase := AwaitingFetch, intervals := Suc (intervals s),
           sent := sent s @ [summary_request (url (ui s)) (summaryType (ui s))]\<rparr>"
  using assms by (auto simp: handleConvert_begin_def valid_url_def)





lemma ticks_sorted:
  assumes "progress (ui a) \<le> 90"
  shows "sorted (progress (ui a) # progress_trace (map Tick rs) a)
    \<and> (\<forall>x\<in>set (progress_trace (map Tick rs) a). x \<le> 90)
    \<and> progress (ui (run (map Tick rs) a)) \<le> 90
    \<and> phase (run (map Tick rs) a) = phase a"
  using assms
proof (induction rs arbitrary: a)
  case Nil
  then show ?case by simp
next
  case (Cons r rs)
  let ?b = "step (Tick r) a"
  have up: "progress (ui a) \<le> progress (ui ?b)"
    by (simp add: tick_mono)
  have le: "progress (ui ?b) \<le> 90"
    using Cons.prems by (simp add: tick_le_90)
  have ph: "phase ?b = phase a"
    by simp
  from Cons.IH [OF le]
  have ih: "sorted (progress (ui ?b) # progress_trace (map Tick rs) ?b)"
    and b90: "\<forall>x\<in>set (progress_trace (map Tick rs) ?b). x \<le> 90"
    and fin: "progress (ui (run (map Tick rs) ?b)) \<le> 90"
    and ph': "phase (run (map Tick rs) ?b) = phase ?b"
    by simp_all
  have tr: "progress_trace (map Tick (r # rs)) a
      = progress (ui ?b) # progress_trace (map Tick rs) ?b"
    by simp
  have "sorted (progress (ui a) # progress (ui ?b) # progress_trace (map Tick rs) ?b)"
    using up ih by (simp only: sorted2 simp_thms)
  moreover have "\<forall>x\<in>set (progress (ui ?b) # progress_trace (map Tick rs) ?b). x \<le> 90"
    using le b90 by simp
  moreover have "run (map Tick (r # rs)) a = run (map Tick rs) ?b"
    by simp
  ultimately show ?case
    unfolding tr using fin ph ph' by simp
qed

lemma step_requests:
  assumes "summaryType (ui s) \<in> set summary_options" and "\<forall>rq\<in>set (sent s). request_wf rq"
  shows "summaryType (ui (step e s)) \<in> set summary_options
    \<and> (\<forall>rq\<in>set (sent (step e s)). request_wf rq)"
proof (cases e)
  case Click
  then show ?thesis using assms
    by (auto simp: handleConvert_begin_def request_wf_def request_url_def summary_request_def)
next
  case (Tick r)
  then show ?thesis using assms by (simp add: tick_def Let_def)
next
  case (FetchSettled res)
  then show ?thesis using assms
    by (cases res) (simp_all add: handler_defs)
next
  case (BodyRead b)
  then show ?thesis using assms
    by (cases "phase s"; cases b) (simp_all add: handler_defs)
next
  case ResetFired
  then show ?thesis using assms by (simp add: clear_progress_def)
next
  case (Paste clip)
  then show ?thesis using assms by (cases clip) simp_all
next
  case PastedConvert
  then show ?thesis using assms by (simp add: stale_convert_rejected)
qed (use assms in simp_all)

lemma run_requests:
  assumes "summaryType (ui s) \<in> set summary_options" and "\<forall>rq\<in>set (sent s). request_wf rq"
  shows "summaryType (ui (run es s)) \<in> set summary_options
    \<and> (\<forall>rq\<in>set (sent (run es s)). request_wf rq)"
  using assms
proof (induction es arbitrary: s)
  case Nil
  then show ?case by simp
next
  case (Cons e es)
  have "summaryType (ui (step e s)) \<in> set summary_options"
    and "\<forall>rq\<in>set (sent (step e s)). request_wf rq"
    using step_requests [OF Cons.prems, of e] by simp_all
  then show ?case
    using Cons.IH [of "step e s"] by simp
qed

lemma step_in_flight_le_90:
  assumes "phase s = AwaitingFetch \<longrightarrow> progress (ui s) \<le> 90"
  shows "phase (step e s) = AwaitingFetch \<longrightarrow> progress (ui (step e s)) \<le> 90"
proof (cases e)
  case Click
  then show ?thesis using assms by (auto simp: handleConvert_begin_def)
next
  case (Tick r)
  then show ?thesis using assms by (simp add: tick_le_90)
next
  case (FetchSettled res)
  then show ?thesis using assms by (cases res) simp_all
next
  case (BodyRead b)
  then show ?thesis using assms by (cases "phase s") simp_all
next
  case ResetFired
  then show ?thesis using assms by (simp add: clear_progress_def)
next
  case (Paste clip)
  then show ?thesis using assms by (cases clip) simp_all
next
  case PastedConvert
  then show ?thesis using assms by (simp add: stale_convert_rejected)
qed (use assms in simp_all)

lemma run_in_flight_le_90:
  assumes "phase s = AwaitingFetch \<longrightarrow> progress (ui s) \<le> 90"
  shows "phase (run es s) = AwaitingFetch \<longrightarrow> progress (ui (run es s)) \<le> 90"
  using assms
proof (induction es arbitrary: s)
  case Nil
  then show ?case by simp
next
  case (Cons e es)
  from Cons.IH [OF step_in_flight_le_90 [OF Cons.prems, of e]] show ?case by simp
qed

lemma progress_95_origin:
  assumes "progress (ui (step e s)) = 95" and "progress (ui s) \<noteq> 95"
  shows "phase s = AwaitingFetch \<and> (\<exists>response. e = FetchSettled (Responded response))"
proof (cases e)
  case Click
  then show ?thesis using assms by (auto simp: handleConvert_begin_def split: if_splits)
next
  case (Tick r)
  then show ?thesis using assms by (auto simp: tick_def Let_def min_def split: if_splits)
next
  case (FetchSettled res)
  then show ?thesis using assms
    by (cases res) (auto simp: handleConvert_catch_def handleConvert_finally_def split: if_splits)
next
  case (BodyRead b)
  then show ?thesis using assms
    by (cases "phase s"; cases b) (auto simp: handler_defs split: if_splits)
next
  case ResetFired
  then show ?thesis using assms by (auto simp: clear_progress_def split: if_splits)
next
  case (Paste clip)
  then show ?thesis using assms by (cases clip) (auto split: if_splits)
next
  case PastedConvert
  then show ?thesis using assms by (auto simp: stale_convert_rejected split: if_splits)
qed (use assms in \<open>auto split: if_splits\<close>)

lemma progress_100_origin:
  assumes "progress (ui (step e s)) = 100" and "progress (ui s) \<noteq> 100"
  shows "\<exists>response d. phase s = AwaitingBody response \<and> ok response
           \<and> e = BodyRead (BodyData d) \<and> \<not> truthy (p_error d)"
proof (cases e)
  case Click
  then show ?thesis using assms by (auto simp: handleConvert_begin_def split: if_splits)
next
  case (Tick r)
  then show ?thesis using assms by (auto simp: tick_def Let_def min_def split: if_splits)
next
  case (FetchSettled res)
  then show ?thesis using assms
    by (cases res) (auto simp: handler_defs split: if_splits)
next
  case (BodyRead b)
  then show ?thesis using assms
    by (cases "phase s"; cases b) (auto simp: handler_defs split: if_splits)
next
  case ResetFired
  then show ?thesis using assms by (auto simp: clear_progress_def split: if_splits)
next
  case (Paste clip)
  then show ?thesis using assms by (cases clip) (auto split: if_splits)
next
  case PastedConvert
  then show ?thesis using assms by (auto simp: stale_convert_rejected split: if_splits)
qed (use assms in \<open>auto split: if_splits\<close>)

text \<open>
  Two behaviours of the timers that no claim below depends on. A \<open>fetch\<close> that rejects
  reaches the \<open>catch\<close> block before \<open>clearInterval\<close>: the interval stays live. The
  timeout of a successful job is not cancelled by the next submission: when it fires
  during the next job, it clears that job's progress.
\<close>

lemma stale_reset_lowers_progress:
  "progress_trace [Click, Tick (1/2), ResetFired]
     (run [Type ''https://youtu.be/abc123'', Click,
           FetchSettled (Responded \<lparr>ok = True, status = 200\<rparr>),
           BodyRead (BodyData \<lparr>p_error = None, p_text = Some ''A summary.'',
                               p_video_info = None, p_highlights = None, p_timestamps = None\<rparr>)]
        initial_sys) = [0, 15 / 2, 0]"
  by (simp add: initial_sys_def initial_app_def handler_defs)

lemma rejected_fetch_clears_progress:
  assumes "phase s = AwaitingFetch"
  shows "ui (step (FetchSettled (Rejected x)) s)
       = (ui s)\<lparr>error := (if x \<noteq> [] then x else ''Failed to convert video. Please try again.''),
                progress := 0, progressMessage := [], isLoading := False\<rparr>
    \<and> intervals (step (FetchSettled (Rejected x)) s) = intervals s"
  using assms by (simp add: handleConvert_catch_def handleConvert_finally_def)

section \<open>Claims\<close>

subsection \<open>C1: a failing job\<close>




subsection \<open>C2: where the displayed percentage comes from\<close>




subsection \<open>C3: monotonicity\<close>

text \<open>
  C3 as stated: for every job, the sequence of progress percentages observed from
  submission until the job reaches a terminal state (success or failure) is
  non-decreasing. A job that fails ends with the reset of the \<open>catch\<close> block: its
  sequence is 0, 7.5, 95, 0.
\<close>

theorem failing_job_progress_regresses_counterexample:
  "progress_trace [Click, Tick (1/2), FetchSettled (Responded \<lparr>ok = False, status = 500\<rparr>),
                   BodyRead (BodyData \<lparr>p_error = None, p_text = None, p_video_info = None,
                                       p_highlights = None, p_timestamps = None\<rparr>)]
     (run [Type ''https://youtu.be/abc123''] initial_sys) = [0, 15 / 2, 95, 0]
   \<and> \<not> sorted [0, 15 / 2, 95, 0 :: real]"
  by (simp add: initial_sys_def initial_app_def handler_defs)

text \<open>
  C3 as amended: the progress values that a job's own handlers write from submission
  until the response has arrived (0, the values of the timer's ticks, 95), and then 100
  when the job succeeds, are non-decreasing; the reset that ends a failing job is not
  part of the sequence.
\<close>

theorem own_progress_writes_nondecreasing:
  assumes "valid_url (url (ui s))" and "\<not> isLoading (ui s)"
  shows "sorted (progress_trace (Click # map Tick rs @ [FetchSettled (Responded response)]) s)
    \<and> (ok response \<and> \<not> truthy (p_error d) \<longrightarrow>
         sorted (progress_trace (Click # map Tick rs @ [FetchSettled (Responded response),
                                                        BodyRead (BodyData d)]) s))"
proof -
  define a where "a = step Click s"
  define b where "b = run (map Tick rs) a"
  define c where "c = step (FetchSettled (Responded response)) b"
  define T where "T = progress_trace (map Tick rs) a"
  have a0: "progress (ui a) = 0" and aph: "phase a = AwaitingFetch"
    unfolding a_def click_valid [OF assms] by simp_all
  from ticks_sorted [of a rs]
  have srt: "sorted (0 # T)" and b90: "\<forall>x\<in>set T. x \<le> 90" and bph: "phase b = AwaitingFetch"
    unfolding a0 aph b_def T_def by simp_all
  have c95: "progress (ui c) = 95" and cph: "phase c = AwaitingBody response"
    unfolding c_def using bph by (simp_all add: handleConvert_response_def)
  have b95: "\<forall>x\<in>set T. x \<le> 95" and b100: "\<forall>x\<in>set T. x \<le> 100"
    using b90 by fastforce+
  have t1: "progress_trace (Click # map Tick rs @ [FetchSettled (Responded response)]) s
      = (0 # T) @ [95]"
    using a0 c95 unfolding a_def b_def c_def T_def
    by (simp only: progress_trace.simps progress_trace_append append_Cons append_Nil)
  have s1: "sorted ((0 # T) @ [95 :: real])"
    using srt b95 by (simp add: sorted_append)
  have s2: "sorted (progress_trace (Click # map Tick rs @ [FetchSettled (Responded response),
                                                        BodyRead (BodyData d)]) s)"
    if "ok response" and "\<not> truthy (p_error d)"
  proof -
    have "progress (ui (step (BodyRead (BodyData d)) c)) = 100"
      using that cph by (simp add: handleConvert_done_def handleConvert_try_def
          handleConvert_finally_def)
    then have "progress_trace (Click # map Tick rs @ [FetchSettled (Responded response),
                                                        BodyRead (BodyData d)]) s
      = (0 # T) @ [95, 100]"
      using a0 c95 unfolding a_def b_def c_def T_def
      by (simp only: progress_trace.simps progress_trace_append append_Cons append_Nil
          run.simps)
    moreover have "sorted ((0 # T) @ [95, 100 :: real])"
      using srt b95 b100 by (simp add: sorted_append)
    ultimately show ?thesis by simp
  qed
  from t1 s1 s2 show ?thesis by simp
qed

theorem own_progress_writes_nondecreasing_witness:
  "sorted (progress_trace [Click, Tick (1/2), Tick (3/4), FetchSettled (Responded \<lparr>ok = True, status = 200\<rparr>),
       BodyRead (BodyData \<lparr>p_error = None, p_text = Some ''A summary.'', p_video_info = None,
                           p_highlights = None, p_timestamps = None\<rparr>)]
     (run [Type ''https://youtu.be/abc123''] initial_sys))
   \<and> progress_trace [Click, Tick (1/2), Tick (3/4), FetchSettled (Responded \<lparr>ok = True, status = 200\<rparr>),
       BodyRead (BodyData \<lparr>p_error = None, p_text = Some ''A summary.'', p_video_info = None,
                           p_highlights = None, p_timestamps = None\<rparr>)]
     (run [Type ''https://youtu.be/abc123''] initial_sys) = [0, 15 / 2, 75 / 4, 95, 100]"
proof -
  let ?s = "run [Type ''https://youtu.be/abc123''] initial_sys"
  let ?r = "\<lparr>ok = True, status = 200\<rparr>"
  let ?d = "\<lparr>p_error = None, p_text = Some ''A summary.'', p_video_info = None,
             p_highlights = None, p_timestamps = None\<rparr>"
  have v: "valid_url (url (ui ?s))" by (simp add: valid_url_def)
  have l: "\<not> isLoading (ui ?s)" by (simp add: initial_sys_def initial_app_def)
  have g: "ok ?r \<and> \<not> truthy (p_error ?d)" by simp
  have t: "progress_trace [Click, Tick (1/2), Tick (3/4), FetchSettled (Responded ?r),
             BodyRead (BodyData ?d)] ?s = [0, 15 / 2, 75 / 4, 95, 100]"
    by (simp add: initial_sys_def initial_app_def handler_defs)
  have "sorted (progress_trace (Click # map Tick [1/2, 3/4]
           @ [FetchSettled (Responded ?r), BodyRead (BodyData ?d)]) ?s)"
    using own_progress_writes_nondecreasing [OF v l, of "[1/2, 3/4]" ?r ?d] g by blast
  then have "sorted (progress_trace [Click, Tick (1/2), Tick (3/4), FetchSettled (Responded ?r),
             BodyRead (BodyData ?d)] ?s)"
    by (simp only: list.map append_Cons append_Nil)
  with t show ?thesis by (simp only: simp_thms)
qed

subsection \<open>C4: an input without an accepted host\<close>



subsection \<open>C5: what validation hands on\<close>

text \<open>
  C5 as stated: for every URL matching an accepted host pattern the validator extracts
  and returns a non-empty canonical video identifier; for \<open>https://youtu.be/abc123\<close> it
  returns \<open>abc123\<close>. The client extracts nothing: the request carries the whole URL.
\<close>

theorem youtu_be_request_carries_url_counterexample:
  "map request_url (sent (run [Type ''https://youtu.be/abc123'', Click] initial_sys))
     = [Some ''https://youtu.be/abc123'']
   \<and> map request_url (sent (run [Type ''https://youtu.be/abc123'', Click] initial_sys))
     \<noteq> [Some ''abc123'']"
  by (simp add: initial_sys_def initial_app_def handleConvert_begin_def summary_request_def
      request_url_def)

text \<open>
  C5 as amended: for every URL containing one of the two accepted host substrings,
  validation passes and the request issued carries that URL, non-empty and unchanged, in
  its \<open>url\<close> field; for \<open>https://youtu.be/abc123\<close> it carries
  \<open>https://youtu.be/abc123\<close>. Likewise in the earlier text converter.
\<close>

theorem valid_url_passed_unchanged:
  assumes "js_includes u ''youtube.com'' \<or> js_includes u ''youtu.be''"
  shows "u \<noteq> []
    \<and> snd (handleConvert_begin u st s) = Some (summary_request u st)
    \<and> request_url (summary_request u st) = Some u
    \<and> snd (handleConvert_begin_v1 u c) = Some (transcribe_request u)
    \<and> request_url (transcribe_request u) = Some u"
proof -
  have "u \<noteq> []" using assms by auto
  then show ?thesis
    using assms
    by (auto simp: handleConvert_begin_def handleConvert_begin_v1_def summary_request_def
        transcribe_request_def request_url_def)
qed

theorem valid_url_passed_unchanged_witness:
  "(js_includes ''https://youtu.be/abc123'' ''youtube.com'' \<or> js_includes ''https://youtu.be/abc123'' ''youtu.be'')
   \<and> snd (handleConvert_begin ''https://youtu.be/abc123'' ''comprehensive'' initial_app)
       = Some (summary_request ''https://youtu.be/abc123'' ''comprehensive'')
   \<and> request_url (summary_request ''https://youtu.be/abc123'' ''comprehensive'')
       = Some ''https://youtu.be/abc123''"
proof -
  have a: "js_includes ''https://youtu.be/abc123'' ''youtube.com'' \<or> js_includes ''https://youtu.be/abc123'' ''youtu.be''"
    by simp
  show ?thesis
    using a valid_url_passed_unchanged [OF a, of "''comprehensive''" initial_app] by simp
qed

subsection \<open>C6: validating again\<close>

text \<open>
  C6 as stated: validating an already-canonical video identifier succeeds and returns
  the same identifier unchanged. The identifier \<open>abc123\<close> contains no accepted host:
  it is rejected.
\<close>

theorem identifier_not_accepted_counterexample:
  "handleConvert_begin ''abc123'' ''comprehensive'' initial_app
     = (initial_app\<lparr>error := ''Please enter a valid YouTube URL''\<rparr>, None)"
  by (simp add: handleConvert_begin_def)

text \<open>
  C6 as amended: validation is idempotent on what it passes on: the URL carried by an
  issued request is the input itself, and validating that URL again, in any state and
  with any summary type, passes and carries the same URL.
\<close>

theorem revalidation_of_passed_url:
  assumes "snd (handleConvert_begin u st s) = Some rq" and "request_url rq = Some v"
  shows "v = u \<and> snd (handleConvert_begin v st' s') = Some (summary_request v st')
    \<and> request_url (summary_request v st') = Some v"
proof -
  have ok: "js_includes u ''youtube.com'' \<or> js_includes u ''youtu.be''"
    using assms(1) by (auto simp: handleConvert_begin_def split: if_splits)
  then have "rq = summary_request u st"
    using assms(1) by (auto simp: handleConvert_begin_def)
  then have "v = u"
    using assms(2) by (simp add: request_url_def summary_request_def)
  with ok show ?thesis
    by (auto simp: handleConvert_begin_def request_url_def summary_request_def)
qed

theorem revalidation_of_passed_url_witness:
  "snd (handleConvert_begin ''https://www.youtube.com/watch?v=abc123'' ''brief'' initial_app)
     = Some (summary_request ''https://www.youtube.com/watch?v=abc123'' ''brief'')
   \<and> request_url (summary_request ''https://www.youtube.com/watch?v=abc123'' ''brief'')
     = Some ''https://www.youtube.com/watch?v=abc123''
   \<and> snd (handleConvert_begin ''https://www.youtube.com/watch?v=abc123'' ''academic''
            (initial_app\<lparr>isLoading := True\<rparr>))
     = Some (summary_request ''https://www.youtube.com/watch?v=abc123'' ''academic'')"
proof -
  let ?u = "''https://www.youtube.com/watch?v=abc123''"
  have a: "snd (handleConvert_begin ?u ''brief'' initial_app) = Some (summary_request ?u ''brief'')"
    by (simp add: handleConvert_begin_def)
  have b: "request_url (summary_request ?u ''brief'') = Some ?u"
    by (simp add: request_url_def summary_request_def)
  show ?thesis
    using a b revalidation_of_passed_url [OF a b, of "''academic''" "initial_app\<lparr>isLoading := True\<rparr>"]
    by simp
qed

subsection \<open>C7: the request\<close>

text \<open>
  C7 as stated: every request consists of exactly the fields \<open>url\<close>,
  \<open>summary_type\<close>, \<open>include_timestamps\<close> and \<open>include_highlights\<close>. The body has a
  fifth field, \<open>include_chapters\<close>.
\<close>

theorem request_has_include_chapters_counterexample:
  "map (map fst \<circ> body) (sent (run [Type ''https://youtu.be/abc123'', Click] initial_sys))
     = [[''url'', ''summary_type'', ''include_timestamps'', ''include_chapters'', ''include_highlights'']]
   \<and> map (map fst \<circ> body) (sent (run [Type ''https://youtu.be/abc123'', Click] initial_sys))
     \<noteq> [[''url'', ''summary_type'', ''include_timestamps'', ''include_highlights'']]"
  by (simp add: initial_sys_def initial_app_def handleConvert_begin_def summary_request_def)

text \<open>
  C7 as amended: every request the component sends, after any sequence of events from
  its initial state, goes to \<open>/transcribe-summary/\<close> and consists of exactly the fields
  \<open>url\<close> (a string), \<open>summary_type\<close> (one of comprehensive, brief, bullets, academic),
  \<open>include_timestamps\<close> (true), \<open>include_chapters\<close> (false) and
  \<open>include_highlights\<close> (true), in this order.
\<close>

theorem request_fields:
  "\<forall>rq\<in>set (sent (run es initial_sys)).
     \<exists>u. \<exists>st\<in>set summary_options.
       endpoint rq = ''/transcribe-summary/''
     \<and> body rq = [(''url'', JString u), (''summary_type'', JString st),
                  (''include_timestamps'', JBool True), (''include_chapters'', JBool False),
                  (''include_highlights'', JBool True)]"
proof -
  have "summaryType (ui initial_sys) \<in> set summary_options"
    by (simp add: initial_sys_def initial_app_def summary_options_def)
  moreover have "\<forall>rq\<in>set (sent initial_sys). request_wf rq"
    by (simp add: initial_sys_def)
  ultimately have "\<forall>rq\<in>set (sent (run es initial_sys)). request_wf rq"
    using run_requests by blast
  then show ?thesis
    by (fastforce simp: request_wf_def summary_request_def split: option.splits)
qed

theorem request_fields_witness:
  "sent (run [Type ''https://youtu.be/abc123'', Select ''bullets'', Select ''verbose'', Click] initial_sys)
     = [summary_request ''https://youtu.be/abc123'' ''bullets'']
   \<and> ''bullets'' \<in> set summary_options
   \<and> body (summary_request ''https://youtu.be/abc123'' ''bullets'')
     = [(''url'', JString ''https://youtu.be/abc123''), (''summary_type'', JString ''bullets''),
        (''include_timestamps'', JBool True), (''include_chapters'', JBool False),
        (''include_highlights'', JBool True)]"
proof -
  let ?es = "[Type ''https://youtu.be/abc123'', Select ''bullets'', Select ''verbose'', Click]"
  have s: "sent (run ?es initial_sys) = [summary_request ''https://youtu.be/abc123'' ''bullets'']"
    by (simp add: initial_sys_def initial_app_def handleConvert_begin_def summary_options_def)
  have "summary_request ''https://youtu.be/abc123'' ''bullets'' \<in> set (sent (run ?es initial_sys))"
    unfolding s by simp
  with request_fields [of ?es]
  obtain u st where "st \<in> set summary_options"
    and "body (summary_request ''https://youtu.be/abc123'' ''bullets'')
      = [(''url'', JString u), (''summary_type'', JString st),
         (''include_timestamps'', JBool True), (''include_chapters'', JBool False),
         (''include_highlights'', JBool True)]"
    by blast
  then have "st = ''bullets''" and "u = ''https://youtu.be/abc123''"
    by (simp_all add: summary_request_def)
  with \<open>st \<in> set summary_options\<close> s show ?thesis
    by (simp add: summary_request_def)
qed

subsection \<open>C8: the success payload\<close>

text \<open>
  C8 as stated: on terminal success the displayed summary equals the payload's text
  field and the displayed video information equals the payload's \<open>video_info\<close> fields.
  The sidebar shows both only under the guard \<open>transcript ?\<close>: for a success payload
  whose text is the empty string the job completes (progress 100, transcript stored),
  but the sidebar shows the placeholder, and neither the summary nor the video
  information.
\<close>

theorem empty_text_shows_placeholder_counterexample:
  "transcript (ui (run [Type ''https://youtu.be/abc123'', Click,
        FetchSettled (Responded \<lparr>ok = True, status = 200\<rparr>),
        BodyRead (BodyData \<lparr>p_error = None, p_text = Some [],
           p_video_info = Some \<lparr>title = ''T'', uploader = ''U'', duration = 60,
                                 view_count = 7, upload_date = ''2024-01-01''\<rparr>,
           p_highlights = None, p_timestamps = None\<rparr>)] initial_sys)) = Some []
   \<and> progress (ui (run [Type ''https://youtu.be/abc123'', Click,
        FetchSettled (Responded \<lparr>ok = True, status = 200\<rparr>),
        BodyRead (BodyData \<lparr>p_error = None, p_text = Some [],
           p_video_info = Some \<lparr>title = ''T'', uploader = ''U'', duration = 60,
                                 view_count = 7, upload_date = ''2024-01-01''\<rparr>,
           p_highlights = None, p_timestamps = None\<rparr>)] initial_sys)) = 100
   \<and> render (ui (run [Type ''https://youtu.be/abc123'', Click,
        FetchSettled (Responded \<lparr>ok = True, status = 200\<rparr>),
        BodyRead (BodyData \<lparr>p_error = None, p_text = Some [],
           p_video_info = Some \<lparr>title = ''T'', uploader = ''U'', duration = 60,
                                 view_count = 7, upload_date = ''2024-01-01''\<rparr>,
           p_highlights = None, p_timestamps = None\<rparr>)] initial_sys)) = Result None None"
  by (simp add: initial_sys_def initial_app_def handler_defs render_def)

text \<open>
  C8 as amended: on success (an ok response whose body has no error, a non-empty text
  and a \<open>video_info\<close>, with or without highlights and timestamps), the transcript is
  the payload's text, the video information is the payload's \<open>video_info\<close>, and the
  sidebar shows exactly them and no error.
\<close>

theorem success_payload_displayed:
  assumes "phase s = AwaitingBody response" and "ok response" and "\<not> truthy (p_error d)"
    and "p_text d = Some t" and "t \<noteq> []" and "p_video_info d = Some v"
  shows "transcript (ui (step (BodyRead (BodyData d)) s)) = Some t
    \<and> videoInfo (ui (step (BodyRead (BodyData d)) s)) = Some v
    \<and> render (ui (step (BodyRead (BodyData d)) s))
        = Result (Some \<lparr>shown_info = Some v, shown_copied = copySuccess (ui s), shown_summary = t\<rparr>)
                 None"
  using assms
  by (simp add: handleConvert_done_def handleConvert_try_def handleConvert_finally_def render_def)

theorem success_payload_displayed_witness:
  "render (ui (run [Type ''https://youtu.be/abc123'', Click, Tick (1/2),
                    FetchSettled (Responded \<lparr>ok = True, status = 200\<rparr>),
                    BodyRead (BodyData \<lparr>p_error = None, p_text = Some ''A summary.'',
                       p_video_info = Some \<lparr>title = ''T'', uploader = ''U'', duration = 60,
                                             view_count = 7, upload_date = ''2024-01-01''\<rparr>,
                       p_highlights = Some [(''0:05'', ''intro'')], p_timestamps = None\<rparr>)]
               initial_sys))
   = Result (Some \<lparr>shown_info = Some \<lparr>title = ''T'', uploader = ''U'', duration = 60,
                                      view_count = 7, upload_date = ''2024-01-01''\<rparr>,
                    shown_copied = False, shown_summary = ''A summary.''\<rparr>) None"
proof -
  let ?v = "\<lparr>title = ''T'', uploader = ''U'', duration = 60, view_count = 7,
             upload_date = ''2024-01-01''\<rparr>"
  let ?d = "\<lparr>p_error = None, p_text = Some ''A summary.'', p_video_info = Some ?v,
             p_highlights = Some [(''0:05'', ''intro'')], p_timestamps = None\<rparr>"
  let ?r = "\<lparr>ok = True, status = 200\<rparr>"
  let ?s = "run [Type ''https://youtu.be/abc123'', Click, Tick (1/2), FetchSettled (Responded ?r)]
              initial_sys"
  have p: "phase ?s = AwaitingBody ?r"
    by (simp add: initial_sys_def initial_app_def handler_defs)
  have c: "copySuccess (ui ?s) = False"
    by (simp add: initial_sys_def initial_app_def handler_defs)
  have "render (ui (step (BodyRead (BodyData ?d)) ?s))
      = Result (Some \<lparr>shown_info = Some ?v, shown_copied = copySuccess (ui ?s),
                       shown_summary = ''A summary.''\<rparr>) None"
    using success_payload_displayed [of ?s ?r ?d "''A summary.''" ?v, OF p] by simp
  then show ?thesis
    unfolding c by simp
qed

subsection \<open>C9: the early return\<close>

text \<open>
  C9: if the input URL contains neither accepted host substring, \<open>handleConvert\<close>
  sets only the error message and returns: the loading flag, the sidebar's visibility,
  the transcript, the progress, the progress message and the video information are left
  unchanged, and no request is made. Likewise in the earlier text converter.
\<close>

theorem invalid_url_sets_only_error:
  assumes "\<not> js_includes u ''youtube.com''" and "\<not> js_includes u ''youtu.be''"
  shows "handleConvert_begin u st s = (s\<lparr>error := ''Please enter a valid YouTube URL''\<rparr>, None)
    \<and> isLoading (fst (handleConvert_begin u st s)) = isLoading s
    \<and> isSidebarOpen (fst (handleConvert_begin u st s)) = isSidebarOpen s
    \<and> transcript (fst (handleConvert_begin u st s)) = transcript s
    \<and> progress (fst (handleConvert_begin u st s)) = progress s
    \<and> progressMessage (fst (handleConvert_begin u st s)) = progressMessage s
    \<and> videoInfo (fst (handleConvert_begin u st s)) = videoInfo s
    \<and> handleConvert_begin_v1 u c = (c\<lparr>error := ''Please enter a valid YouTube URL''\<rparr>, None)"
  using assms by (simp add: handleConvert_begin_def handleConvert_begin_v1_def)

theorem invalid_url_sets_only_error_witness:
  "\<not> js_includes ''not-a-url'' ''youtube.com'' \<and> \<not> js_includes ''not-a-url'' ''youtu.be''
   \<and> handleConvert_begin ''not-a-url'' ''brief'' (initial_app\<lparr>progress := 100, isSidebarOpen := True\<rparr>)
       = (initial_app\<lparr>progress := 100, isSidebarOpen := True,
                       error := ''Please enter a valid YouTube URL''\<rparr>, None)"
proof -
  have a: "\<not> js_includes ''not-a-url'' ''youtube.com''" by simp
  have b: "\<not> js_includes ''not-a-url'' ''youtu.be''" by simp
  show ?thesis
    using a b invalid_url_sets_only_error [OF a b, of "''brief''" "initial_app\<lparr>progress := 100, isSidebarOpen := True\<rparr>"]
    by simp
qed

subsection \<open>C10: the bounds of the progress value\<close>

text \<open>
  C10: in every state the component reaches, while the request is in flight the
  progress is at most 90; an event brings the progress to 95 only if it is the arrival of
  the response to the request in flight; and an event brings it to 100 only if it is the
  reading of the body of an ok response without an error field.
\<close>

theorem in_flight_progress_bounds:
  "(phase (run es initial_sys) = AwaitingFetch \<longrightarrow> progress (ui (run es initial_sys)) \<le> 90)
   \<and> (progress (ui (step e (run es initial_sys))) = 95 \<longrightarrow>
        progress (ui (run es initial_sys)) = 95
        \<or> phase (run es initial_sys) = AwaitingFetch
          \<and> (\<exists>response. e = FetchSettled (Responded response)))
   \<and> (progress (ui (step e (run es initial_sys))) = 100 \<longrightarrow>
        progress (ui (run es initial_sys)) = 100
        \<or> (\<exists>response d. phase (run es initial_sys) = AwaitingBody response \<and> ok response
              \<and> e = BodyRead (BodyData d) \<and> \<not> truthy (p_error d)))"
proof -
  have "phase initial_sys = AwaitingFetch \<longrightarrow> progress (ui initial_sys) \<le> 90"
    by (simp add: initial_sys_def)
  then have "phase (run es initial_sys) = AwaitingFetch \<longrightarrow> progress (ui (run es initial_sys)) \<le> 90"
    by (rule run_in_flight_le_90)
  then show ?thesis
    using progress_95_origin [of e "run es initial_sys"]
      progress_100_origin [of e "run es initial_sys"]
    by blast
qed

theorem in_flight_progress_bounds_witness:
  "phase (run [Type ''https://youtu.be/abc123'', Click, Tick (1/2)] initial_sys) = AwaitingFetch
   \<and> progress (ui (run [Type ''https://youtu.be/abc123'', Click, Tick (1/2)] initial_sys)) \<le> 90
   \<and> progress (ui (step (FetchSettled (Responded \<lparr>ok = True, status = 200\<rparr>))
         (run [Type ''https://youtu.be/abc123'', Click, Tick (1/2)] initial_sys))) = 95
   \<and> progress (ui (step (BodyRead (BodyData \<lparr>p_error = None, p_text = Some ''A summary.'',
                      p_video_info = None, p_highlights = None, p_timestamps = None\<rparr>))
         (run [Type ''https://youtu.be/abc123'', Click, Tick (1/2),
               FetchSettled (Responded \<lparr>ok = True, status = 200\<rparr>)] initial_sys))) = 100"
proof -
  let ?es = "[Type ''https://youtu.be/abc123'', Click, Tick (1/2)]"
  let ?r = "\<lparr>ok = True, status = 200\<rparr>"
  let ?d = "\<lparr>p_error = None, p_text = Some ''A summary.'', p_video_info = None,
             p_highlights = None, p_timestamps = None\<rparr>"
  have p: "phase (run ?es initial_sys) = AwaitingFetch"
    by (simp add: initial_sys_def initial_app_def handler_defs)
  have a: "progress (ui (step (FetchSettled (Responded ?r)) (run ?es initial_sys))) = 95"
    by (simp add: initial_sys_def initial_app_def handler_defs)
  have b: "progress (ui (step (BodyRead (BodyData ?d))
             (run (?es @ [FetchSettled (Responded ?r)]) initial_sys))) = 100"
    by (simp add: initial_sys_def initial_app_def handler_defs)
  have "progress (ui (run ?es initial_sys)) \<le> 90"
    using in_flight_progress_bounds [of ?es Click] p by blast
  moreover have "progress (ui (run ?es initial_sys)) = 95
      \<or> phase (run ?es initial_sys) = AwaitingFetch
        \<and> (\<exists>response. FetchSettled (Responded ?r) = FetchSettled (Responded response))"
    using in_flight_progress_bounds [of ?es "FetchSettled (Responded ?r)"] a by blast
  moreover have "progress (ui (run (?es @ [FetchSettled (Responded ?r)]) initial_sys)) = 100
      \<or> (\<exists>response d. phase (run (?es @ [FetchSettled (Responded ?r)]) initial_sys)
              = AwaitingBody response \<and> ok response
            \<and> BodyRead (BodyData ?d) = BodyRead (BodyData d) \<and> \<not> truthy (p_error d))"
    using in_flight_progress_bounds [of "?es @ [FetchSettled (Responded ?r)]" "BodyRead (BodyData ?d)"] b
    by blast
  ultimately show ?thesis
    using p a b by simp
qed

end
